theory Spec2Isabelle
  imports Complex_Main "HOL-Library.Word"
begin

section \<open>The dispensing controller of code.ino\<close>

text \<open>
  The sketch is a single-threaded polling loop over four modes. Its globals and the
  function-local statics of its handlers are the fields of one record; every handler is a
  function from that record to the updated record. What a handler reads from the keypad,
  the load cell and the clock during one pass of \<^verbatim>\<open>loop()\<close> is the record \<open>env\<close>.

  Conventions of the model:
  \<^item> \<^verbatim>\<open>float\<close> values are reals: the comparisons of the sketch are kept, the rounding of
    the 32-bit float arithmetic is not represented.
  \<^item> \<^verbatim>\<open>unsigned long\<close> is a 32-bit word, so the differences of two clock readings wrap
    around as they do on the board.
  \<^item> the levels written with \<^verbatim>\<open>digitalWrite\<close> are the fields \<open>motorPin1\<close> and
    \<open>motorPin2\<close> (\<open>True\<close> is HIGH); the calls made to the load-cell driver's
    \<^verbatim>\<open>tare()\<close> and to the display driver are appended to the field \<open>calls\<close>,
    oldest first.
  \<^item> the serial log (\<^verbatim>\<open>logMessage\<close>, \<^verbatim>\<open>showCurrentMode\<close>, \<^verbatim>\<open>Serial.print\<close>) is
    write-only and is left out, together with the two sensor flags that are read for
    logging only.
\<close>

subsection \<open>Data\<close>

datatype SystemMode = WEIGHT_INPUT | ZEROING | DISPENSING | FINISHED

datatype driver_call =
    SensorTare
  | LcdClear
  | LcdSetCursor nat nat
  | LcdPrint string
  | LcdPrintFloat real nat

type_synonym ulong = "32 word"

record controller =
  currentMode :: SystemMode
  desiredWeight :: real
  measuredWeight :: real
  userInput :: string
  isMotorOn :: bool
  fineControlMode :: bool
  previousUpdate :: ulong
  motorStartTime :: ulong
  completionTime :: ulong
  isTaring :: bool
  tareBeginTime :: ulong
  lastMeasurement :: ulong
  motorPulseWidth :: "16 word"
  lastMotorChange :: ulong
  isMotorActive :: bool
  motorPin1 :: bool
  motorPin2 :: bool
  calls :: "driver_call list"

text \<open>
  One pass of \<^verbatim>\<open>loop()\<close> runs one handler. \<open>pressedKey\<close> is what
  \<^verbatim>\<open>userKeypad.getKey()\<close> returns (the character 0 is \<^verbatim>\<open>NO_KEY\<close>), \<open>sensorUpdate\<close>
  what \<^verbatim>\<open>weightSensor.update()\<close> returns, \<open>tareStatus\<close> and \<open>sensorData\<close> what
  \<^verbatim>\<open>getTareStatus()\<close> and \<^verbatim>\<open>getData()\<close> return. Every call site of \<^verbatim>\<open>millis()\<close>
  has a reading of its own, since the clock may advance between two calls of one pass.
\<close>

record env =
  pressedKey :: char
  sensorUpdate :: bool
  tareStatus :: bool
  sensorData :: real
  millisTare :: ulong
  millisSampleDue :: ulong
  millisSampled :: ulong
  millisRefreshDue :: ulong
  millisRefreshed :: ulong
  millisPulse :: ulong
  millisDone :: ulong
  millisDwell :: ulong

definition NO_KEY :: char where
  "NO_KEY = CHR 0x00"

definition SCREEN_UPDATE_DELAY :: ulong where
  "SCREEN_UPDATE_DELAY = 500"

definition SENSOR_READ_DELAY :: ulong where
  "SENSOR_READ_DELAY = 200"

text \<open>The keymap handed to the keypad driver: \<^verbatim>\<open>getKey()\<close> returns one of these or \<^verbatim>\<open>NO_KEY\<close>.\<close>

definition keypadButtons :: "char list list" where
  "keypadButtons = [''123'', ''456'', ''789'', ''*0#'']"

definition keypad_env :: "env \<Rightarrow> bool" where
  "keypad_env e = (pressedKey e = NO_KEY \<or> pressedKey e \<in> set (concat keypadButtons))"

subsection \<open>Library functions the sketch calls\<close>

definition isdigit :: "char \<Rightarrow> bool" where
  "isdigit c = (c \<in> set ''0123456789'')"

definition digit_val :: "char \<Rightarrow> nat" where
  "digit_val c = of_char c - 48"

definition digits_val :: "string \<Rightarrow> nat" where
  "digits_val ds = foldl (\<lambda>a c. 10 * a + digit_val c) 0 ds"

text \<open>
  \<^verbatim>\<open>String::toFloat()\<close> is \<^verbatim>\<open>atof\<close> on the buffer: an optional sign, the longest run of
  digits, and after a decimal point the digits of the fraction; a text with no digits
  gives 0. Blanks in front and an exponent are not represented: \<open>toFloat_unsigned\<close>
  stops at the first character that is neither a digit nor the first decimal point.
\<close>

definition toFloat_unsigned :: "string \<Rightarrow> real" where
  "toFloat_unsigned s =
     (let ip = takeWhile isdigit s;
          fp = (case dropWhile isdigit s of
                  [] \<Rightarrow> []
                | c # r \<Rightarrow> if c = CHR ''.'' then takeWhile isdigit r else [])
      in real (digits_val ip) + real (digits_val fp) / 10 ^ length fp)"

definition toFloat :: "string \<Rightarrow> real" where
  "toFloat s =
     (case s of
        [] \<Rightarrow> 0
      | c # r \<Rightarrow>
          if c = CHR ''-'' then - toFloat_unsigned r
          else if c = CHR ''+'' then toFloat_unsigned r
          else toFloat_unsigned s)"

subsection \<open>Display and motor helpers\<close>

text \<open>\<open>lcd cs\<close> makes the calls \<open>cs\<close> to the display driver, in this order.\<close>

definition lcd :: "driver_call list \<Rightarrow> controller \<Rightarrow> controller" where
  "lcd cs s = s\<lparr>calls := calls s @ cs\<rparr>"

definition showOnDisplay :: "string \<Rightarrow> controller \<Rightarrow> controller" where
  "showOnDisplay message s = lcd [LcdClear, LcdSetCursor 0 0, LcdPrint message] s"

definition refreshDisplay :: "controller \<Rightarrow> controller" where
  "refreshDisplay s =
     lcd [LcdSetCursor 0 1, LcdPrint ''                '',
          LcdSetCursor 0 1, LcdPrint (userInput s)] s"

definition turnMotorOn :: "controller \<Rightarrow> controller" where
  "turnMotorOn s =
     (if \<not> fineControlMode s
      then s\<lparr>motorPin1 := True, motorPin2 := False\<rparr>
      else s)\<lparr>isMotorOn := True\<rparr>"

definition turnMotorOff :: "controller \<Rightarrow> controller" where
  "turnMotorOff s = s\<lparr>motorPin1 := False, motorPin2 := False, isMotorOn := False\<rparr>"

definition restartSystem :: "controller \<Rightarrow> controller" where
  "restartSystem s =
     showOnDisplay ''Input Weight (g):''
       ((turnMotorOff
          (s\<lparr>desiredWeight := 0, measuredWeight := 0, userInput := [],
             fineControlMode := False\<rparr>))
        \<lparr>currentMode := WEIGHT_INPUT\<rparr>)"

subsection \<open>The handlers\<close>

definition processUserInput :: "env \<Rightarrow> controller \<Rightarrow> controller" where
  "processUserInput e s =
     (let pressed = pressedKey e in
      if pressed \<noteq> NO_KEY then
        if pressed = CHR ''#'' then
          if length (userInput s) > 0 then
            (let s1 = s\<lparr>desiredWeight := toFloat (userInput s)\<rparr> in
             if desiredWeight s1 > 0
             then showOnDisplay ''Calibrating...'' (s1\<lparr>currentMode := ZEROING\<rparr>)
             else s1)
          else s
        else if pressed = CHR ''*'' then
          lcd [LcdSetCursor 0 1, LcdPrint ''                '']
            (showOnDisplay ''Input Weight (g):'' (s\<lparr>userInput := []\<rparr>))
        else if (isdigit pressed \<or> pressed = CHR ''.'') \<and> length (userInput s) < 6 then
          refreshDisplay (s\<lparr>userInput := userInput s @ [pressed]\<rparr>)
        else s
      else s)"

text \<open>
  \<open>isTaring\<close> and \<open>tareBeginTime\<close> are the statics of \<^verbatim>\<open>performTaring\<close>. The initialiser
  of \<^verbatim>\<open>tareBeginTime\<close> reads the clock at the first call; that call finds \<open>isTaring\<close>
  false and assigns the field again before anything reads it.
\<close>

definition performTaring :: "env \<Rightarrow> controller \<Rightarrow> controller" where
  "performTaring e s =
     (if \<not> isTaring s then
        s\<lparr>calls := calls s @ [SensorTare], isTaring := True, tareBeginTime := millisTare e\<rparr>
      else if millisTare e - tareBeginTime s > 10000 then
        restartSystem s
      else if sensorUpdate e then
        if tareStatus e
        then turnMotorOn (s\<lparr>isTaring := False, currentMode := DISPENSING\<rparr>)
        else s
      else s)"

text \<open>
  \<open>lastMotorChange\<close> and \<open>isMotorActive\<close> are the statics of \<^verbatim>\<open>preciseDispensing\<close>. The
  parameter is a \<^verbatim>\<open>long\<close>; the comparison with the \<^verbatim>\<open>unsigned long\<close> difference
  converts it to \<^verbatim>\<open>unsigned long\<close>, so it is a word here and \<open>\<le>\<close> is the unsigned
  order.
\<close>

definition offTime :: ulong where
  "offTime = 200"

definition preciseDispensing :: "ulong \<Rightarrow> env \<Rightarrow> controller \<Rightarrow> controller" where
  "preciseDispensing onTime e s =
     (let now = millisPulse e;
          timeSinceChange = now - lastMotorChange s
      in if isMotorActive s then
           if timeSinceChange \<ge> onTime
           then s\<lparr>motorPin1 := False, isMotorActive := False, lastMotorChange := now\<rparr>
           else s
         else
           if timeSinceChange \<ge> offTime
           then s\<lparr>motorPin1 := True, motorPin2 := False, isMotorActive := True,
                  lastMotorChange := now\<rparr>
           else s)"

text \<open>
  \<^verbatim>\<open>controlDispensing\<close> is a sequence of five blocks; each is a function here, named by
  the comment that heads it in the sketch, and the handler is their composition in the
  order of the source.
\<close>

definition getCurrentWeight :: "env \<Rightarrow> controller \<Rightarrow> controller" where
  "getCurrentWeight e s =
     (if millisSampleDue e - lastMeasurement s \<ge> SENSOR_READ_DELAY
      then (if sensorUpdate e then s\<lparr>measuredWeight := \<bar>sensorData e\<bar>\<rparr> else s)
             \<lparr>lastMeasurement := millisSampled e\<rparr>
      else s)"

definition refreshWeights :: "env \<Rightarrow> controller \<Rightarrow> controller" where
  "refreshWeights e s =
     (if millisRefreshDue e - previousUpdate s \<ge> SCREEN_UPDATE_DELAY
      then (lcd [LcdSetCursor 0 1, LcdPrintFloat (measuredWeight s) 2, LcdPrint ''g/'',
                 LcdPrintFloat (desiredWeight s) 2, LcdPrint ''g   ''] s)
             \<lparr>previousUpdate := millisRefreshed e\<rparr>
      else s)"

definition forceFineControl :: "controller \<Rightarrow> controller" where
  "forceFineControl s =
     (if desiredWeight s \<le> 600 then s\<lparr>fineControlMode := True\<rparr> else s)"

definition drivePulsed :: "env \<Rightarrow> controller \<Rightarrow> controller" where
  "drivePulsed e s =
     (if measuredWeight s \<ge> desiredWeight s - 200 \<and> fineControlMode s
      then preciseDispensing 20 e s
      else if fineControlMode s
      then preciseDispensing 80 e s
      else s)"

definition manageMotor :: "env \<Rightarrow> controller \<Rightarrow> controller" where
  "manageMotor e s =
     (if measuredWeight s \<ge> desiredWeight s then
        (showOnDisplay ''Completed!'' ((turnMotorOff s)\<lparr>currentMode := FINISHED\<rparr>))
          \<lparr>completionTime := millisDone e\<rparr>
      else if measuredWeight s > desiredWeight s - 500 \<and> \<not> fineControlMode s then
        s\<lparr>fineControlMode := True\<rparr>
      else s)"

definition controlDispensing :: "env \<Rightarrow> controller \<Rightarrow> controller" where
  "controlDispensing e s =
     manageMotor e (drivePulsed e (forceFineControl (refreshWeights e (getCurrentWeight e s))))"

definition showCompletion :: "env \<Rightarrow> controller \<Rightarrow> controller" where
  "showCompletion e s =
     (if millisDwell e - completionTime s \<ge> 5000 then restartSystem s else s)"

definition loop :: "env \<Rightarrow> controller \<Rightarrow> controller" where
  "loop e s =
     (case currentMode s of
        WEIGHT_INPUT \<Rightarrow> processUserInput e s
      | ZEROING \<Rightarrow> performTaring e s
      | DISPENSING \<Rightarrow> controlDispensing e s
      | FINISHED \<Rightarrow> showCompletion e s)"

subsection \<open>Executions\<close>

text \<open>
  The controller as \<^verbatim>\<open>setup()\<close> leaves it when the sensor starts without a fault (with a
  fault \<^verbatim>\<open>setup()\<close> never returns): the globals and statics hold their initialisers,
  \<^verbatim>\<open>turnMotorOff()\<close> has run, and the driver calls are counted from here.
\<close>

definition init :: controller where
  "init =
     \<lparr>currentMode = WEIGHT_INPUT, desiredWeight = 0, measuredWeight = 0, userInput = [],
      isMotorOn = False, fineControlMode = False, previousUpdate = 0, motorStartTime = 0,
      completionTime = 0, isTaring = False, tareBeginTime = 0, lastMeasurement = 0,
      motorPulseWidth = 100, lastMotorChange = 0, isMotorActive = False,
      motorPin1 = False, motorPin2 = False, calls = []\<rparr>"

text \<open>A pass in which no key is down, the sensor has nothing new and the clock reads \<open>t\<close>.\<close>

definition idle :: "ulong \<Rightarrow> env" where
  "idle t =
     \<lparr>pressedKey = NO_KEY, sensorUpdate = False, tareStatus = False, sensorData = 0,
      millisTare = t, millisSampleDue = t, millisSampled = t, millisRefreshDue = t,
      millisRefreshed = t, millisPulse = t, millisDone = t, millisDwell = t\<rparr>"

fun run :: "env list \<Rightarrow> controller \<Rightarrow> controller" where
  "run [] s = s"
| "run (e # es) s = run es (loop e s)"

text \<open>Passes used as concrete inputs: a key press, a new reading, a completed tare.\<close>

definition key :: "char \<Rightarrow> ulong \<Rightarrow> env" where
  "key k t = (idle t)\<lparr>pressedKey := k\<rparr>"

definition reading :: "real \<Rightarrow> ulong \<Rightarrow> env" where
  "reading m t = (idle t)\<lparr>sensorUpdate := True, sensorData := m\<rparr>"


text \<open>
  \<open>no_restart es s\<close>: none of the passes \<open>es\<close>, run from \<open>s\<close>, is the full reset.
\<close>

fun no_restart :: "env list \<Rightarrow> controller \<Rightarrow> bool" where
  "no_restart [] s = True"
| "no_restart (e # es) s = (loop e s \<noteq> restartSystem s \<and> no_restart es (loop e s))"

text \<open>
  Two concrete executions. In \<open>stale_tare_passes\<close> the user enters 5 g, the tare starts at
  600 ms and times out at 10601 ms, and the user enters 5 g again. In \<open>seven_keys\<close> seven
  digits are pressed in a row. In \<open>point_keys\<close> the keys 1, decimal point, 2 are pressed.
\<close>

definition stale_tare_passes :: "env list" where
  "stale_tare_passes =
     [key CHR ''5'' 0, key CHR ''#'' 300, idle 600, idle 10601,
      key CHR ''5'' 20000, key CHR ''#'' 20300]"



subsection \<open>What each block of the handlers changes\<close>

lemma lcd_fields:
  "currentMode (lcd cs s) = currentMode s"
  "desiredWeight (lcd cs s) = desiredWeight s"
  "measuredWeight (lcd cs s) = measuredWeight s"
  "userInput (lcd cs s) = userInput s"
  "fineControlMode (lcd cs s) = fineControlMode s"
  "calls (lcd cs s) = calls s @ cs"
  by (simp_all add: lcd_def)

lemma getCurrentWeight_fields:
  "currentMode (getCurrentWeight e s) = currentMode s"
  "desiredWeight (getCurrentWeight e s) = desiredWeight s"
  "fineControlMode (getCurrentWeight e s) = fineControlMode s"
  "userInput (getCurrentWeight e s) = userInput s"
  "isMotorActive (getCurrentWeight e s) = isMotorActive s"
  "lastMotorChange (getCurrentWeight e s) = lastMotorChange s"
  by (simp_all add: getCurrentWeight_def)

lemma refreshWeights_fields:
  "currentMode (refreshWeights e s) = currentMode s"
  "desiredWeight (refreshWeights e s) = desiredWeight s"
  "measuredWeight (refreshWeights e s) = measuredWeight s"
  "fineControlMode (refreshWeights e s) = fineControlMode s"
  "userInput (refreshWeights e s) = userInput s"
  "isMotorActive (refreshWeights e s) = isMotorActive s"
  "lastMotorChange (refreshWeights e s) = lastMotorChange s"
  by (simp_all add: refreshWeights_def lcd_def)

lemma forceFineControl_fields:
  "currentMode (forceFineControl s) = currentMode s"
  "desiredWeight (forceFineControl s) = desiredWeight s"
  "measuredWeight (forceFineControl s) = measuredWeight s"
  "userInput (forceFineControl s) = userInput s"
  "calls (forceFineControl s) = calls s"
  "isMotorActive (forceFineControl s) = isMotorActive s"
  "lastMotorChange (forceFineControl s) = lastMotorChange s"
  "fineControlMode (forceFineControl s) = (fineControlMode s \<or> desiredWeight s \<le> 600)"
  by (simp_all add: forceFineControl_def)

lemma preciseDispensing_fields:
  "currentMode (preciseDispensing w e s) = currentMode s"
  "desiredWeight (preciseDispensing w e s) = desiredWeight s"
  "measuredWeight (preciseDispensing w e s) = measuredWeight s"
  "fineControlMode (preciseDispensing w e s) = fineControlMode s"
  "userInput (preciseDispensing w e s) = userInput s"
  "calls (preciseDispensing w e s) = calls s"
  by (simp_all add: preciseDispensing_def Let_def)

lemma drivePulsed_fields:
  "currentMode (drivePulsed e s) = currentMode s"
  "desiredWeight (drivePulsed e s) = desiredWeight s"
  "measuredWeight (drivePulsed e s) = measuredWeight s"
  "fineControlMode (drivePulsed e s) = fineControlMode s"
  "userInput (drivePulsed e s) = userInput s"
  "calls (drivePulsed e s) = calls s"
  by (simp_all add: drivePulsed_def preciseDispensing_fields)

lemma manageMotor_fields:
  "desiredWeight (manageMotor e s) = desiredWeight s"
  "measuredWeight (manageMotor e s) = measuredWeight s"
  "userInput (manageMotor e s) = userInput s"
  "isMotorActive (manageMotor e s) = isMotorActive s"
  "lastMotorChange (manageMotor e s) = lastMotorChange s"
  "currentMode (manageMotor e s) =
     (if desiredWeight s \<le> measuredWeight s then FINISHED else currentMode s)"
  "fineControlMode (manageMotor e s) =
     (fineControlMode s \<or> (\<not> desiredWeight s \<le> measuredWeight s \<and> desiredWeight s - 500 < measuredWeight s))"
  by (auto simp add: manageMotor_def showOnDisplay_def lcd_def turnMotorOff_def)

lemma manageMotor_finished:
  "desiredWeight s \<le> measuredWeight s \<Longrightarrow>
     manageMotor e s =
       s\<lparr>motorPin1 := False, motorPin2 := False, isMotorOn := False, currentMode := FINISHED,
         calls := calls s @ [LcdClear, LcdSetCursor 0 0, LcdPrint ''Completed!''],
         completionTime := millisDone e\<rparr>"
  by (simp add: manageMotor_def showOnDisplay_def lcd_def turnMotorOff_def)

lemmas dispensing_fields =
  getCurrentWeight_fields refreshWeights_fields forceFineControl_fields
  drivePulsed_fields manageMotor_fields

lemma restartSystem_eq:
  "restartSystem s =
     s\<lparr>desiredWeight := 0, measuredWeight := 0, userInput := [], fineControlMode := False,
       motorPin1 := False, motorPin2 := False, isMotorOn := False,
       currentMode := WEIGHT_INPUT,
       calls := calls s @ [LcdClear, LcdSetCursor 0 0, LcdPrint ''Input Weight (g):'']\<rparr>"
  by (simp add: restartSystem_def showOnDisplay_def lcd_def turnMotorOff_def)

subsection \<open>Invariants of key entry\<close>

lemma toFloat_unsigned_nonneg: "0 \<le> toFloat_unsigned b"
  by (simp add: toFloat_unsigned_def Let_def)

lemma toFloat_nonneg:
  assumes "\<forall>c\<in>set b. isdigit c \<or> c = CHR ''.''"
  shows "0 \<le> toFloat b"
proof (cases b)
  case Nil
  then show ?thesis by (simp add: toFloat_def)
next
  case (Cons c r)
  with assms have "c \<noteq> CHR ''-''"
    by (auto simp add: isdigit_def)
  with Cons show ?thesis
    using toFloat_unsigned_nonneg by (simp add: toFloat_def)
qed

lemma processUserInput_fields:
  "userInput (processUserInput e s) =
     (if pressedKey e = NO_KEY \<or> pressedKey e = CHR ''#'' then userInput s
      else if pressedKey e = CHR ''*'' then []
      else if (isdigit (pressedKey e) \<or> pressedKey e = CHR ''.'') \<and> length (userInput s) < 6
      then userInput s @ [pressedKey e]
      else userInput s)"
  "currentMode (processUserInput e s) =
     (if pressedKey e = CHR ''#'' \<and> userInput s \<noteq> [] \<and> 0 < toFloat (userInput s)
      then ZEROING else currentMode s)"
  "desiredWeight (processUserInput e s) =
     (if pressedKey e = CHR ''#'' \<and> userInput s \<noteq> [] then toFloat (userInput s)
      else desiredWeight s)"
  "fineControlMode (processUserInput e s) = fineControlMode s"
  by (simp_all add: processUserInput_def Let_def showOnDisplay_def lcd_def refreshDisplay_def
      NO_KEY_def)

lemma performTaring_fields:
  "userInput (performTaring e s) =
     (if isTaring s \<and> millisTare e - tareBeginTime s > 10000 then [] else userInput s)"
  "desiredWeight (performTaring e s) =
     (if isTaring s \<and> millisTare e - tareBeginTime s > 10000 then 0 else desiredWeight s)"
  "currentMode (performTaring e s) =
     (if \<not> isTaring s then currentMode s
      else if millisTare e - tareBeginTime s > 10000 then WEIGHT_INPUT
      else if sensorUpdate e \<and> tareStatus e then DISPENSING
      else currentMode s)"
  by (simp_all add: performTaring_def restartSystem_eq turnMotorOn_def)

lemma controlDispensing_fields:
  "userInput (controlDispensing e s) = userInput s"
  "desiredWeight (controlDispensing e s) = desiredWeight s"
  "currentMode (controlDispensing e s) = WEIGHT_INPUT \<longleftrightarrow>
     currentMode s = WEIGHT_INPUT \<and>
     \<not> desiredWeight s \<le> measuredWeight (getCurrentWeight e s)"
  by (simp_all add: controlDispensing_def dispensing_fields)

lemma showCompletion_fields:
  "userInput (showCompletion e s) =
     (if millisDwell e - completionTime s \<ge> 5000 then [] else userInput s)"
  "desiredWeight (showCompletion e s) =
     (if millisDwell e - completionTime s \<ge> 5000 then 0 else desiredWeight s)"
  "currentMode (showCompletion e s) =
     (if millisDwell e - completionTime s \<ge> 5000 then WEIGHT_INPUT else currentMode s)"
  by (simp_all add: showCompletion_def restartSystem_eq)

lemma run_snoc: "run (es @ [e]) s = loop e (run es s)"
  by (induction es arbitrary: s) simp_all

lemma loop_userInput:
  "userInput (loop e s) = userInput s \<or> userInput (loop e s) = [] \<or>
   (userInput (loop e s) = userInput s @ [pressedKey e] \<and> length (userInput s) < 6 \<and>
    (isdigit (pressedKey e) \<or> pressedKey e = CHR ''.'') \<and>
    pressedKey e \<noteq> NO_KEY \<and> pressedKey e \<noteq> CHR ''#'' \<and> pressedKey e \<noteq> CHR ''*'')"
  by (cases "currentMode s")
    (simp_all add: loop_def processUserInput_fields performTaring_fields
      controlDispensing_fields showCompletion_fields)

lemma loop_input_target:
  assumes "\<forall>c\<in>set (userInput s). isdigit c \<or> c = CHR ''.''"
    and "currentMode s = WEIGHT_INPUT \<longrightarrow> desiredWeight s = 0"
    and "currentMode (loop e s) = WEIGHT_INPUT"
  shows "desiredWeight (loop e s) = 0"
proof (cases "currentMode s")
  case WEIGHT_INPUT
  then show ?thesis
    using assms toFloat_nonneg [OF assms(1)]
    by (auto simp add: loop_def processUserInput_fields split: if_splits)
next
  case ZEROING
  then show ?thesis
    using assms(3) by (auto simp add: loop_def performTaring_fields split: if_splits)
next
  case DISPENSING
  then show ?thesis
    using assms(3) by (simp add: loop_def controlDispensing_fields)
next
  case FINISHED
  then show ?thesis
    using assms(3) by (auto simp add: loop_def showCompletion_fields split: if_splits)
qed

lemma run_input_invariant:
  "length (userInput (run es init)) \<le> 6 \<and>
   (\<forall>c\<in>set (userInput (run es init)). isdigit c \<or> c = CHR ''.'') \<and>
   (currentMode (run es init) = WEIGHT_INPUT \<longrightarrow> desiredWeight (run es init) = 0)"
proof (induction es rule: rev_induct)
  case Nil
  then show ?case by (simp add: init_def)
next
  case (snoc e es)
  let ?s = "run es init"
  from snoc have len: "length (userInput ?s) \<le> 6"
    and chars: "\<forall>c\<in>set (userInput ?s). isdigit c \<or> c = CHR ''.''"
    and target: "currentMode ?s = WEIGHT_INPUT \<longrightarrow> desiredWeight ?s = 0"
    by simp_all
  have "length (userInput (loop e ?s)) \<le> 6"
    using loop_userInput [of e ?s] len by auto
  moreover have "\<forall>c\<in>set (userInput (loop e ?s)). isdigit c \<or> c = CHR ''.''"
    using loop_userInput [of e ?s] chars by auto
  moreover have "currentMode (loop e ?s) = WEIGHT_INPUT \<longrightarrow> desiredWeight (loop e ?s) = 0"
    using loop_input_target [OF chars target] by blast
  ultimately show ?case
    by (simp add: run_snoc)
qed

lemma keypad_env_key:
  assumes "keypad_env e"
  shows "pressedKey e \<noteq> CHR ''.''"
  using assms by (auto simp add: keypad_env_def keypadButtons_def NO_KEY_def)

lemma run_keypad_digits:
  assumes "\<forall>e\<in>set es. keypad_env e"
  shows "CHR ''.'' \<notin> set (userInput (run es init))"
  using assms
proof (induction es rule: rev_induct)
  case Nil
  then show ?case by (simp add: init_def)
next
  case (snoc e es)
  then have "CHR ''.'' \<notin> set (userInput (run es init))" and "pressedKey e \<noteq> CHR ''.''"
    by (simp_all add: keypad_env_key)
  then show ?case
    using loop_userInput [of e "run es init"] by (auto simp add: run_snoc)
qed

lemmas toFloat_eval = toFloat_def toFloat_unsigned_def isdigit_def digits_val_def digit_val_def

lemmas eval_defs = loop_def processUserInput_def Let_def key_def idle_def init_def NO_KEY_def
  isdigit_def refreshDisplay_def lcd_def performTaring_def restartSystem_eq showOnDisplay_def

subsection \<open>Finalising an entry\<close>

text \<open>
  C3 as the sketch has it. In mode \<open>WEIGHT_INPUT\<close>, the key \<open>#\<close> on a buffer that is not
  empty and parses to a value above 0 stores that value in \<open>desiredWeight\<close>, sets the mode
  to \<open>ZEROING\<close> and shows "Calibrating..."; no other field changes, so the buffer keeps
  its text.
\<close>

theorem finalize_enters_zeroing:
  assumes "currentMode s = WEIGHT_INPUT" and "pressedKey e = CHR ''#''"
    and "userInput s \<noteq> []" and "0 < toFloat (userInput s)"
  shows "loop e s =
           s\<lparr>desiredWeight := toFloat (userInput s), currentMode := ZEROING,
             calls := calls s @ [LcdClear, LcdSetCursor 0 0, LcdPrint ''Calibrating...'']\<rparr> \<and>
         userInput (loop e s) = userInput s"
  using assms
  by (simp add: loop_def processUserInput_def NO_KEY_def showOnDisplay_def lcd_def)

lemma run_75:
  "run [key CHR ''7'' 0, key CHR ''5'' 300] init =
     init\<lparr>userInput := ''75'',
       calls := [LcdSetCursor 0 1, LcdPrint ''                '', LcdSetCursor 0 1, LcdPrint ''7'',
                 LcdSetCursor 0 1, LcdPrint ''                '', LcdSetCursor 0 1, LcdPrint ''75'']\<rparr>"
  by (simp add: eval_defs)

lemma toFloat_75: "toFloat ''75'' = 75"
  by (simp add: toFloat_eval)

theorem finalize_enters_zeroing_witness:
  "currentMode (run [key CHR ''7'' 0, key CHR ''5'' 300] init) = WEIGHT_INPUT \<and>
   userInput (run [key CHR ''7'' 0, key CHR ''5'' 300] init) = ''75'' \<and>
   loop (key CHR ''#'' 600) (run [key CHR ''7'' 0, key CHR ''5'' 300] init) =
     (run [key CHR ''7'' 0, key CHR ''5'' 300] init)
       \<lparr>desiredWeight := 75, currentMode := ZEROING,
         calls := calls (run [key CHR ''7'' 0, key CHR ''5'' 300] init) @
           [LcdClear, LcdSetCursor 0 0, LcdPrint ''Calibrating...'']\<rparr>"
  using finalize_enters_zeroing
    [of "run [key CHR ''7'' 0, key CHR ''5'' 300] init" "key CHR ''#'' 600"]
  unfolding run_75 by (simp add: toFloat_75 key_def idle_def init_def)

text \<open>
  C3 as the specification words it asks for an empty buffer after the transition. After
  the keys 7, 5 the controller is in mode \<open>WEIGHT_INPUT\<close> with the buffer "75", which
  parses to 75; the key \<open>#\<close> takes it to \<open>ZEROING\<close> and the buffer is not empty.
\<close>

theorem finalize_keeps_buffer_counterexample:
  "currentMode (run [key CHR ''7'' 0, key CHR ''5'' 300] init) = WEIGHT_INPUT \<and>
   userInput (run [key CHR ''7'' 0, key CHR ''5'' 300] init) = ''75'' \<and>
   0 < toFloat ''75'' \<and>
   currentMode (loop (key CHR ''#'' 600) (run [key CHR ''7'' 0, key CHR ''5'' 300] init)) = ZEROING \<and>
   userInput (loop (key CHR ''#'' 600) (run [key CHR ''7'' 0, key CHR ''5'' 300] init)) \<noteq> []"
  unfolding run_75
  by (simp add: toFloat_75 loop_def processUserInput_fields key_def idle_def init_def)

text \<open>
  C4. In every state the controller reaches in mode \<open>WEIGHT_INPUT\<close>, a pass changes the
  stored \<open>desiredWeight\<close> only when the key is \<open>#\<close>, the buffer is not empty and it parses
  to a value above 0; with an empty buffer, or one that parses to a value of at most 0,
  the mode stays \<open>WEIGHT_INPUT\<close> and \<open>desiredWeight\<close> keeps its value. (The sketch assigns
  the parsed value before it tests it; in this mode the stored value is 0 and a rejected
  parse is 0, so the assignment changes nothing.)
\<close>

theorem target_set_only_by_accepted_entry:
  assumes "s = run es init" and "currentMode s = WEIGHT_INPUT"
  shows "(desiredWeight (loop e s) \<noteq> desiredWeight s \<longrightarrow>
            pressedKey e = CHR ''#'' \<and> userInput s \<noteq> [] \<and> 0 < toFloat (userInput s)) \<and>
         (userInput s = [] \<or> toFloat (userInput s) \<le> 0 \<longrightarrow>
            currentMode (loop e s) = WEIGHT_INPUT \<and> desiredWeight (loop e s) = desiredWeight s)"
proof -
  have zero: "desiredWeight s = 0" and nonneg: "0 \<le> toFloat (userInput s)"
    using assms run_input_invariant [of es] by (simp_all add: toFloat_nonneg)
  have l: "loop e s = processUserInput e s"
    using assms(2) by (simp add: loop_def)
  show ?thesis
    using zero nonneg assms(2) unfolding l
    by (auto simp add: processUserInput_fields)
qed

theorem target_set_only_by_accepted_entry_witness:
  "currentMode (run [key CHR ''0'' 0] init) = WEIGHT_INPUT \<and>
   userInput (run [key CHR ''0'' 0] init) = ''0'' \<and>
   toFloat (userInput (run [key CHR ''0'' 0] init)) \<le> 0 \<and>
   currentMode (loop (key CHR ''#'' 300) (run [key CHR ''0'' 0] init)) = WEIGHT_INPUT \<and>
   desiredWeight (loop (key CHR ''#'' 300) (run [key CHR ''0'' 0] init)) =
     desiredWeight (run [key CHR ''0'' 0] init)"
proof -
  have s: "run [key CHR ''0'' 0] init =
      init\<lparr>userInput := ''0'',
        calls := [LcdSetCursor 0 1, LcdPrint ''                '', LcdSetCursor 0 1, LcdPrint ''0'']\<rparr>"
    by (simp add: eval_defs)
  have f: "toFloat ''0'' = 0"
    by (simp add: toFloat_eval)
  show ?thesis
    using target_set_only_by_accepted_entry [OF refl, of "[key CHR ''0'' 0]" "key CHR ''#'' 300"]
    unfolding s by (simp add: f init_def)
qed

subsection \<open>Bounds on the input buffer\<close>





text \<open>
  The keymap of the sketch, \<open>keypadButtons\<close>, has no decimal point: while every key comes
  from it the buffer holds digits only.
\<close>

lemma keypad_buffer_has_no_point:
  assumes "\<forall>e\<in>set es. keypad_env e"
  shows "count_list (userInput (run es init)) CHR ''.'' = 0"
  using run_keypad_digits [OF assms] by simp

subsection \<open>The taring handshake\<close>

text \<open>
  The first pass of an episode that finds no tare in progress sends the tare command,
  marks the tare as in progress and records the clock; it does nothing else.
\<close>

lemma zeroing_first_pass_starts_tare:
  assumes "currentMode s = ZEROING" and "\<not> isTaring s"
  shows "loop e s =
           s\<lparr>calls := calls s @ [SensorTare], isTaring := True, tareBeginTime := millisTare e\<rparr>"
  using assms by (simp add: loop_def performTaring_def)

text \<open>
  A pass that finds the tare in progress: more than 10000 ms past \<open>tareBeginTime\<close> (as a
  32-bit unsigned difference) it is the full reset; otherwise a new sample with the tare
  complete leads to \<open>DISPENSING\<close> and clears \<open>isTaring\<close>, and anything else leaves the state
  as it is.
\<close>

lemma zeroing_pass_in_progress:
  assumes "currentMode s = ZEROING" and "isTaring s"
  shows "(millisTare e - tareBeginTime s > 10000 \<longrightarrow>
            loop e s = restartSystem s \<and>
            currentMode (loop e s) = WEIGHT_INPUT \<and>
            desiredWeight (loop e s) = 0 \<and> measuredWeight (loop e s) = 0 \<and>
            userInput (loop e s) = [] \<and> \<not> fineControlMode (loop e s) \<and>
            \<not> motorPin1 (loop e s) \<and> \<not> motorPin2 (loop e s) \<and> \<not> isMotorOn (loop e s)) \<and>
         (\<not> millisTare e - tareBeginTime s > 10000 \<and> sensorUpdate e \<and> tareStatus e \<longrightarrow>
            currentMode (loop e s) = DISPENSING \<and> \<not> isTaring (loop e s)) \<and>
         (\<not> millisTare e - tareBeginTime s > 10000 \<and> \<not> (sensorUpdate e \<and> tareStatus e) \<longrightarrow>
            loop e s = s)"
proof -
  have l: "loop e s = performTaring e s"
    using assms by (simp add: loop_def)
  show ?thesis
  proof (cases "millisTare e - tareBeginTime s > 10000")
    case True
    then have "performTaring e s = restartSystem s"
      using assms by (simp add: performTaring_def)
    then show ?thesis
      using True unfolding l by (simp add: restartSystem_eq)
  next
    case False
    then show ?thesis
      using assms unfolding l by (auto simp add: performTaring_def turnMotorOn_def)
  qed
qed

text \<open>
  An episode that starts with no tare in progress behaves as the handshake is described:
  its first pass starts the tare at the reading \<open>millisTare e0\<close>, and a later pass resets
  once more than 10000 ms have passed since then, or goes to \<open>DISPENSING\<close> when the tare is
  reported complete before that.
\<close>

lemma fresh_episode_handshake:
  assumes "currentMode s = ZEROING" and "\<not> isTaring s"
  shows "currentMode (loop e0 s) = ZEROING \<and> isTaring (loop e0 s) \<and>
         tareBeginTime (loop e0 s) = millisTare e0 \<and>
         calls (loop e0 s) = calls s @ [SensorTare] \<and>
         (millisTare e - millisTare e0 > 10000 \<longrightarrow>
            loop e (loop e0 s) = restartSystem (loop e0 s)) \<and>
         (\<not> millisTare e - millisTare e0 > 10000 \<and> sensorUpdate e \<and> tareStatus e \<longrightarrow>
            currentMode (loop e (loop e0 s)) = DISPENSING) \<and>
         (\<not> millisTare e - millisTare e0 > 10000 \<and> \<not> (sensorUpdate e \<and> tareStatus e) \<longrightarrow>
            loop e (loop e0 s) = loop e0 s)"
proof -
  have first: "loop e0 s =
      s\<lparr>calls := calls s @ [SensorTare], isTaring := True, tareBeginTime := millisTare e0\<rparr>"
    using assms by (rule zeroing_first_pass_starts_tare)
  have st: "currentMode (loop e0 s) = ZEROING" "isTaring (loop e0 s)"
    "tareBeginTime (loop e0 s) = millisTare e0" "calls (loop e0 s) = calls s @ [SensorTare]"
    unfolding first using assms(1) by simp_all
  show ?thesis
    using zeroing_pass_in_progress [OF st(1) st(2), of e] st by simp
qed

lemma run_stale_tare_passes:
  "run stale_tare_passes init =
     init\<lparr>currentMode := ZEROING, desiredWeight := 5, userInput := ''5'', isTaring := True,
       tareBeginTime := 600,
       calls :=
         [LcdSetCursor 0 1, LcdPrint ''                '', LcdSetCursor 0 1, LcdPrint ''5'',
          LcdClear, LcdSetCursor 0 0, LcdPrint ''Calibrating...'',
          SensorTare,
          LcdClear, LcdSetCursor 0 0, LcdPrint ''Input Weight (g):'',
          LcdSetCursor 0 1, LcdPrint ''                '', LcdSetCursor 0 1, LcdPrint ''5'',
          LcdClear, LcdSetCursor 0 0, LcdPrint ''Calibrating...'']\<rparr>"
proof -
  have f: "toFloat ''5'' = 5"
    by (simp add: toFloat_eval)
  show ?thesis
    by (simp add: stale_tare_passes_def eval_defs f turnMotorOff_def)
qed


text \<open>
  The timeout branch leaves the statics of \<open>performTaring\<close> as they are: the tare still
  counts as in progress, from the old start.
\<close>

lemma timeout_leaves_tare_in_progress:
  assumes "isTaring s" and "millisTare e - tareBeginTime s > 10000"
  shows "isTaring (performTaring e s) \<and> tareBeginTime (performTaring e s) = tareBeginTime s \<and>
         calls (performTaring e s) =
           calls s @ [LcdClear, LcdSetCursor 0 0, LcdPrint ''Input Weight (g):'']"
  using assms by (simp add: performTaring_def restartSystem_eq)

text \<open>
  C5 asks for a tare command and a new start timestamp on the first pass of every
  \<open>ZEROING\<close> episode. After \<open>stale_tare_passes\<close> the controller has entered \<open>ZEROING\<close> for
  the second time, following a timeout: \<open>isTaring\<close> is still set and \<open>tareBeginTime\<close> is
  still 600. The first pass of this episode, at 20600 ms, sends no tare command (the only
  one is that of the first episode), keeps the start at 600 and is the full reset.
\<close>

theorem second_zeroing_episode_skips_tare:
  "currentMode (run stale_tare_passes init) = ZEROING \<and>
   desiredWeight (run stale_tare_passes init) = 5 \<and>
   isTaring (run stale_tare_passes init) \<and>
   tareBeginTime (run stale_tare_passes init) = 600 \<and>
   count_list (calls (run stale_tare_passes init)) SensorTare = 1 \<and>
   loop (idle 20600) (run stale_tare_passes init) = restartSystem (run stale_tare_passes init) \<and>
   count_list (calls (loop (idle 20600) (run stale_tare_passes init))) SensorTare = 1 \<and>
   tareBeginTime (loop (idle 20600) (run stale_tare_passes init)) = 600 \<and>
   currentMode (loop (idle 20600) (run stale_tare_passes init)) = WEIGHT_INPUT"
  unfolding run_stale_tare_passes by (simp add: eval_defs)

subsection \<open>Completion of a dispensing cycle\<close>

text \<open>
  C1. A pass in mode \<open>DISPENSING\<close> ends in \<open>FINISHED\<close> exactly when the mass sampled
  in that pass has reached the target, whatever \<open>fineControlMode\<close> is; otherwise the mode
  is still \<open>DISPENSING\<close>. On the transition both motor pins are low, \<open>isMotorOn\<close> is
  false, the display was cleared and shows "Completed!", and \<open>completionTime\<close> holds the
  clock reading taken there.
\<close>
theorem dispensing_finishes_iff_target_reached:
  assumes "currentMode s = DISPENSING"
  shows "(currentMode (loop e s) = FINISHED \<longleftrightarrow>
            desiredWeight (loop e s) \<le> measuredWeight (loop e s)) \<and>
         (currentMode (loop e s) = FINISHED \<or> currentMode (loop e s) = DISPENSING) \<and>
         desiredWeight (loop e s) = desiredWeight s \<and>
         measuredWeight (loop e s) = measuredWeight (getCurrentWeight e s) \<and>
         (currentMode (loop e s) = FINISHED \<longrightarrow>
            \<not> motorPin1 (loop e s) \<and> \<not> motorPin2 (loop e s) \<and> \<not> isMotorOn (loop e s) \<and>
            completionTime (loop e s) = millisDone e \<and>
            calls (loop e s) =
              calls (refreshWeights e (getCurrentWeight e s)) @
                [LcdClear, LcdSetCursor 0 0, LcdPrint ''Completed!''])"
proof -
  let ?d = "drivePulsed e (forceFineControl (refreshWeights e (getCurrentWeight e s)))"
  have l: "loop e s = manageMotor e ?d"
    using assms by (simp add: loop_def controlDispensing_def)
  have d: "currentMode ?d = DISPENSING" "desiredWeight ?d = desiredWeight s"
    "measuredWeight ?d = measuredWeight (getCurrentWeight e s)"
    "calls ?d = calls (refreshWeights e (getCurrentWeight e s))"
    using assms by (simp_all add: dispensing_fields)
  show ?thesis
  proof (cases "desiredWeight ?d \<le> measuredWeight ?d")
    case True
    then show ?thesis
      unfolding l by (simp add: manageMotor_finished d)
  next
    case False
    then show ?thesis
      unfolding l by (simp add: manageMotor_fields d)
  qed
qed

theorem dispensing_finishes_iff_target_reached_witness:
  "currentMode (init\<lparr>currentMode := DISPENSING, desiredWeight := 700\<rparr>) = DISPENSING \<and>
   currentMode (loop (reading (-705) 250) (init\<lparr>currentMode := DISPENSING, desiredWeight := 700\<rparr>))
     = FINISHED \<and>
   measuredWeight (loop (reading (-705) 250) (init\<lparr>currentMode := DISPENSING, desiredWeight := 700\<rparr>))
     = 705 \<and>
   completionTime (loop (reading (-705) 250) (init\<lparr>currentMode := DISPENSING, desiredWeight := 700\<rparr>))
     = 250"
  using dispensing_finishes_iff_target_reached
    [of "init\<lparr>currentMode := DISPENSING, desiredWeight := 700\<rparr>" "reading (-705) 250"]
  by (simp add: init_def reading_def idle_def getCurrentWeight_def SENSOR_READ_DELAY_def)

subsection \<open>Fine control\<close>

text \<open>
  C7. After a pass in mode \<open>DISPENSING\<close>, \<open>fineControlMode\<close> is true exactly when it was
  true before, or the target is at most 600, or it was false and the mass sampled in the
  pass is above the target less 500 and below the target.
\<close>

theorem fine_control_enabled_iff:
  assumes "currentMode s = DISPENSING"
  shows "fineControlMode (loop e s) \<longleftrightarrow>
           fineControlMode s \<or> desiredWeight s \<le> 600 \<or>
           (\<not> fineControlMode s \<and>
            desiredWeight s - 500 < measuredWeight (loop e s) \<and>
            \<not> desiredWeight s \<le> measuredWeight (loop e s))"
  using assms by (auto simp add: loop_def controlDispensing_def dispensing_fields)

lemmas dispensing_eval =
  loop_def controlDispensing_def getCurrentWeight_def refreshWeights_def forceFineControl_def
  drivePulsed_def preciseDispensing_def manageMotor_def offTime_def Let_def
  SENSOR_READ_DELAY_def SCREEN_UPDATE_DELAY_def showOnDisplay_def lcd_def turnMotorOff_def
  restartSystem_eq init_def reading_def idle_def

theorem fine_control_enabled_iff_witness:
  "currentMode (init\<lparr>currentMode := DISPENSING, desiredWeight := 700\<rparr>) = DISPENSING \<and>
   \<not> fineControlMode (init\<lparr>currentMode := DISPENSING, desiredWeight := 700\<rparr>) \<and>
   measuredWeight (loop (reading 250 250) (init\<lparr>currentMode := DISPENSING, desiredWeight := 700\<rparr>))
     = 250 \<and>
   fineControlMode (loop (reading 250 250) (init\<lparr>currentMode := DISPENSING, desiredWeight := 700\<rparr>)) \<and>
   \<not> fineControlMode (loop (reading 150 250) (init\<lparr>currentMode := DISPENSING, desiredWeight := 700\<rparr>))"
  using fine_control_enabled_iff
    [of "init\<lparr>currentMode := DISPENSING, desiredWeight := 700\<rparr>" "reading 250 250"]
  by (simp add: dispensing_eval)

text \<open>
  C8. In a pass in mode \<open>DISPENSING\<close>, let \<open>s3\<close> be the state when the drive is chosen
  (after sampling, display refresh and the forcing of fine control for targets of at most
  600). With fine control on in \<open>s3\<close> the pass calls \<open>preciseDispensing\<close> once, with 20
  when the sampled mass is at least the target less 200 and with 80 otherwise; with fine
  control off it calls it not at all, and the statics of the pulsed drive keep their
  values. Whatever the on-duration, an inactive drive switches on when 200 ms have passed
  since the last change, and an active drive switches off after the on-duration.
\<close>

theorem pulsed_drive_widths:
  assumes "currentMode s = DISPENSING"
  shows "(let s3 = forceFineControl (refreshWeights e (getCurrentWeight e s)) in
          fineControlMode s3 = (fineControlMode s \<or> desiredWeight s \<le> 600) \<and>
          desiredWeight s3 = desiredWeight s \<and>
          measuredWeight s3 = measuredWeight (loop e s) \<and>
          (fineControlMode s3 \<and> desiredWeight s3 - 200 \<le> measuredWeight s3 \<longrightarrow>
             loop e s = manageMotor e (preciseDispensing 20 e s3)) \<and>
          (fineControlMode s3 \<and> \<not> desiredWeight s3 - 200 \<le> measuredWeight s3 \<longrightarrow>
             loop e s = manageMotor e (preciseDispensing 80 e s3)) \<and>
          (\<not> fineControlMode s3 \<longrightarrow>
             loop e s = manageMotor e s3 \<and>
             isMotorActive (loop e s) = isMotorActive s \<and>
             lastMotorChange (loop e s) = lastMotorChange s)) \<and>
         (\<forall>w. preciseDispensing w e s =
            (if isMotorActive s then
               if w \<le> millisPulse e - lastMotorChange s
               then s\<lparr>motorPin1 := False, isMotorActive := False,
                      lastMotorChange := millisPulse e\<rparr>
               else s
             else
               if 200 \<le> millisPulse e - lastMotorChange s
               then s\<lparr>motorPin1 := True, motorPin2 := False, isMotorActive := True,
                      lastMotorChange := millisPulse e\<rparr>
               else s))"
proof -
  let ?s3 = "forceFineControl (refreshWeights e (getCurrentWeight e s))"
  have l: "loop e s = manageMotor e (drivePulsed e ?s3)"
    using assms by (simp add: loop_def controlDispensing_def)
  have m: "measuredWeight ?s3 = measuredWeight (loop e s)"
    unfolding l by (simp add: dispensing_fields)
  have a: "fineControlMode ?s3 \<and> desiredWeight ?s3 - 200 \<le> measuredWeight ?s3 \<longrightarrow>
      loop e s = manageMotor e (preciseDispensing 20 e ?s3)"
    unfolding l by (simp add: drivePulsed_def)
  have b: "fineControlMode ?s3 \<and> \<not> desiredWeight ?s3 - 200 \<le> measuredWeight ?s3 \<longrightarrow>
      loop e s = manageMotor e (preciseDispensing 80 e ?s3)"
    unfolding l by (simp add: drivePulsed_def)
  have c: "\<not> fineControlMode ?s3 \<longrightarrow>
      loop e s = manageMotor e ?s3 \<and> isMotorActive (loop e s) = isMotorActive s \<and>
      lastMotorChange (loop e s) = lastMotorChange s"
    unfolding l by (simp add: drivePulsed_def manageMotor_fields dispensing_fields)
  have p: "\<forall>w. preciseDispensing w e s =
            (if isMotorActive s then
               if w \<le> millisPulse e - lastMotorChange s
               then s\<lparr>motorPin1 := False, isMotorActive := False,
                      lastMotorChange := millisPulse e\<rparr>
               else s
             else
               if 200 \<le> millisPulse e - lastMotorChange s
               then s\<lparr>motorPin1 := True, motorPin2 := False, isMotorActive := True,
                      lastMotorChange := millisPulse e\<rparr>
               else s)"
    by (simp add: preciseDispensing_def Let_def offTime_def)
  have f: "fineControlMode ?s3 = (fineControlMode s \<or> desiredWeight s \<le> 600)"
    "desiredWeight ?s3 = desiredWeight s"
    by (simp_all add: dispensing_fields)
  show ?thesis
    unfolding Let_def using f m a b c p by blast
qed

theorem pulsed_drive_widths_witness:
  "currentMode (init\<lparr>currentMode := DISPENSING, desiredWeight := 700, measuredWeight := 600,
       fineControlMode := True, isMotorActive := True, motorPin1 := True,
       lastMotorChange := 220\<rparr>) = DISPENSING \<and>
   loop (idle 250) (init\<lparr>currentMode := DISPENSING, desiredWeight := 700, measuredWeight := 600,
       fineControlMode := True, isMotorActive := True, motorPin1 := True,
       lastMotorChange := 220\<rparr>) =
     manageMotor (idle 250) (preciseDispensing 20 (idle 250)
       (forceFineControl (refreshWeights (idle 250) (getCurrentWeight (idle 250)
         (init\<lparr>currentMode := DISPENSING, desiredWeight := 700, measuredWeight := 600,
            fineControlMode := True, isMotorActive := True, motorPin1 := True,
            lastMotorChange := 220\<rparr>))))) \<and>
   \<not> isMotorActive (loop (idle 250) (init\<lparr>currentMode := DISPENSING, desiredWeight := 700,
       measuredWeight := 600, fineControlMode := True, isMotorActive := True, motorPin1 := True,
       lastMotorChange := 220\<rparr>)) \<and>
   isMotorActive (loop (idle 250) (init\<lparr>currentMode := DISPENSING, desiredWeight := 700,
       measuredWeight := 400, fineControlMode := True, isMotorActive := True, motorPin1 := True,
       lastMotorChange := 220\<rparr>))"
  using pulsed_drive_widths
    [of "init\<lparr>currentMode := DISPENSING, desiredWeight := 700, measuredWeight := 600,
       fineControlMode := True, isMotorActive := True, motorPin1 := True,
       lastMotorChange := 220\<rparr>" "idle 250"]
  by (simp add: dispensing_eval)

text \<open>
  A pass either keeps \<open>fineControlMode\<close> set or is the full reset: \<open>restartSystem\<close> holds
  the only assignment of false.
\<close>

lemma loop_keeps_fine_control:
  assumes "fineControlMode s"
  shows "fineControlMode (loop e s) \<or> loop e s = restartSystem s"
proof (cases "currentMode s")
  case WEIGHT_INPUT
  then show ?thesis
    using assms by (simp add: loop_def processUserInput_fields)
next
  case ZEROING
  then show ?thesis
    using assms by (simp add: loop_def performTaring_def turnMotorOn_def)
next
  case DISPENSING
  then show ?thesis
    using assms by (simp add: loop_def controlDispensing_def dispensing_fields)
next
  case FINISHED
  then show ?thesis
    using assms by (simp add: loop_def showCompletion_def)
qed

text \<open>
  C6. Once \<open>fineControlMode\<close> is true it stays true along every sequence of passes none
  of which is the full reset.
\<close>

theorem fine_control_sticky_until_reset:
  assumes "fineControlMode s" and "no_restart es s"
  shows "fineControlMode (run es s)"
  using assms
proof (induction es arbitrary: s)
  case Nil
  then show ?case by simp
next
  case (Cons e es)
  then have "fineControlMode (loop e s)" and "no_restart es (loop e s)"
    using loop_keeps_fine_control [of s e] by auto
  then show ?case
    using Cons.IH by simp
qed

theorem fine_control_sticky_until_reset_witness:
  "fineControlMode (init\<lparr>currentMode := DISPENSING, desiredWeight := 700, fineControlMode := True\<rparr>) \<and>
   no_restart [reading 690 250, reading 705 500]
     (init\<lparr>currentMode := DISPENSING, desiredWeight := 700, fineControlMode := True\<rparr>) \<and>
   fineControlMode (run [reading 690 250, reading 705 500]
     (init\<lparr>currentMode := DISPENSING, desiredWeight := 700, fineControlMode := True\<rparr>)) \<and>
   currentMode (run [reading 690 250, reading 705 500]
     (init\<lparr>currentMode := DISPENSING, desiredWeight := 700, fineControlMode := True\<rparr>)) = FINISHED"
proof -
  have n: "no_restart [reading 690 250, reading 705 500]
     (init\<lparr>currentMode := DISPENSING, desiredWeight := 700, fineControlMode := True\<rparr>)"
    by (simp add: dispensing_eval)
  have m: "currentMode (run [reading 690 250, reading 705 500]
     (init\<lparr>currentMode := DISPENSING, desiredWeight := 700, fineControlMode := True\<rparr>)) = FINISHED"
    by (simp add: dispensing_eval)
  have f: "fineControlMode (init\<lparr>currentMode := DISPENSING, desiredWeight := 700, fineControlMode := True\<rparr>)"
    by simp
  show ?thesis
    using fine_control_sticky_until_reset [OF f n] n m f by blast
qed

subsection \<open>The full reset\<close>

text \<open>
  C10. \<open>restartSystem\<close> writes \<open>desiredWeight\<close>, \<open>measuredWeight\<close>, \<open>userInput\<close>,
  \<open>fineControlMode\<close>, the two motor pins with \<open>isMotorOn\<close>, \<open>currentMode\<close> and the display,
  and nothing else: the statics of \<open>performTaring\<close> (\<open>isTaring\<close>, \<open>tareBeginTime\<close>), of
  \<open>preciseDispensing\<close> (\<open>isMotorActive\<close>, \<open>lastMotorChange\<close>) and of \<open>controlDispensing\<close>
  (\<open>lastMeasurement\<close>, \<open>motorPulseWidth\<close>) and the timestamps \<open>previousUpdate\<close>,
  \<open>completionTime\<close> and \<open>motorStartTime\<close> keep their values.
\<close>

theorem restartSystem_frame:
  "restartSystem s =
     s\<lparr>desiredWeight := 0, measuredWeight := 0, userInput := [], fineControlMode := False,
       motorPin1 := False, motorPin2 := False, isMotorOn := False,
       currentMode := WEIGHT_INPUT,
       calls := calls s @ [LcdClear, LcdSetCursor 0 0, LcdPrint ''Input Weight (g):'']\<rparr> \<and>
   isTaring (restartSystem s) = isTaring s \<and>
   tareBeginTime (restartSystem s) = tareBeginTime s \<and>
   isMotorActive (restartSystem s) = isMotorActive s \<and>
   lastMotorChange (restartSystem s) = lastMotorChange s \<and>
   lastMeasurement (restartSystem s) = lastMeasurement s \<and>
   previousUpdate (restartSystem s) = previousUpdate s \<and>
   motorPulseWidth (restartSystem s) = motorPulseWidth s \<and>
   completionTime (restartSystem s) = completionTime s \<and>
   motorStartTime (restartSystem s) = motorStartTime s"
  by (simp add: restartSystem_eq)

end
